theory Spec2Isabelle
  imports Complex_Main "HOL-Library.Signed_Division"
begin

section \<open>Integer arithmetic of the C sources\<close>

text \<open>
  The sources compute with \<open>int64_t\<close> microsecond counts. C's \<open>/\<close> and \<open>%\<close> truncate
  towards zero; they are \<open>sdiv\<close> and \<open>smod\<close> of the library on \<open>int\<close>. The values of
  the timecode clock and of the NTP state stay far below \<open>2 ^ 63\<close> (lemma
  \<open>run_bounded\<close> below shows it for the NTP state), so no operation wraps and the
  model computes on \<open>int\<close>. \<open>labs\<close> is the absolute value (its argument is a \<open>long\<close>,
  64 bits wide on the LP64 targets the model describes).
\<close>

definition MICROSECONDS_PER_SECOND :: int where
  "MICROSECONDS_PER_SECOND = 1000000"

definition NANOSECONDS_PER_MICROSECOND :: int where
  "NANOSECONDS_PER_MICROSECOND = 1000"

definition SAMPLE_RATE :: int where
  "SAMPLE_RATE = 48000"

definition INT64_MAX :: int where
  "INT64_MAX = 9223372036854775807"

definition NTP_QUERY_COUNT :: nat where
  "NTP_QUERY_COUNT = 5"

definition NTP_ERROR_THRESHOLD :: int where
  "NTP_ERROR_THRESHOLD = 10 * MICROSECONDS_PER_SECOND"

text \<open>A cast \<open>(int64_t) x\<close> of a floating-point value drops the fractional part.\<close>

definition to_int64 :: "rat \<Rightarrow> int" where
  "to_int64 x = (if 0 \<le> x then \<lfloor>x\<rfloor> else \<lceil>x\<rceil>)"

section \<open>Shared NTP state and the per-frame slew step\<close>

text \<open>
  The three globals \<open>ntp_offset_us\<close>, \<open>ntp_target_offset_us\<close> and
  \<open>ntp_adjustment_step_us\<close>, all guarded by \<open>ntp_lock\<close>, all initialised to 0.
\<close>

record ntp_state =
  ntp_offset_us :: int
  ntp_target_offset_us :: int
  ntp_adjustment_step_us :: int

definition ntp_init :: ntp_state where
  "ntp_init = \<lparr>ntp_offset_us = 0, ntp_target_offset_us = 0, ntp_adjustment_step_us = 0\<rparr>"

text \<open>
  The block of \<open>get_timecode_with_alsa_latency\<close> that runs under the lock once per audio
  frame, after the current offset has been added to the clock reading: advance the offset
  by the step, and on reaching or passing the target snap to it and stop.
\<close>

definition slew_step :: "ntp_state \<Rightarrow> ntp_state" where
  "slew_step s =
     (if ntp_offset_us s \<noteq> ntp_target_offset_us s \<and> ntp_adjustment_step_us s \<noteq> 0 then
        (let s1 = s\<lparr>ntp_offset_us := ntp_offset_us s + ntp_adjustment_step_us s\<rparr> in
         if (ntp_adjustment_step_us s1 > 0 \<and> ntp_offset_us s1 \<ge> ntp_target_offset_us s1) \<or>
            (ntp_adjustment_step_us s1 < 0 \<and> ntp_offset_us s1 \<le> ntp_target_offset_us s1)
         then s1\<lparr>ntp_offset_us := ntp_target_offset_us s1, ntp_adjustment_step_us := 0\<rparr>
         else s1)
      else s)"

section \<open>NTP synchronisation: \<open>query_ntp_server\<close>\<close>

text \<open>
  What the network and the resolver answer during one call: whether \<open>socket\<close>,
  \<open>setsockopt\<close> and \<open>gethostbyname\<close> succeed, and the value returned by the
  \<open>i\<close>-th call of \<open>perform_single_ntp_query\<close> (the measured offset, or \<open>INT64_MAX\<close>
  when sending or receiving failed).
\<close>

record ntp_env =
  socket_ok :: bool
  setsockopt_ok :: bool
  resolved :: bool
  reply :: "nat \<Rightarrow> int"

text \<open>
  The first loop: \<open>offsets[i]\<close> starts as \<open>INT64_MAX\<close> and receives the offset of a
  query that succeeded and passed the sanity check; such a query is counted and summed.
  The accumulator is \<open>(offsets, successful_queries, sum_offset)\<close>.
\<close>

fun query_loop :: "int list \<Rightarrow> int list \<times> int \<times> int \<Rightarrow> int list \<times> int \<times> int" where
  "query_loop [] acc = acc"
| "query_loop (offset # rest) (offsets, successful_queries, sum_offset) =
     (if offset \<noteq> INT64_MAX then
        if \<bar>offset\<bar> < NTP_ERROR_THRESHOLD
        then query_loop rest (offsets @ [offset], successful_queries + 1, sum_offset + offset)
        else query_loop rest (offsets @ [INT64_MAX], successful_queries, sum_offset)
      else query_loop rest (offsets @ [INT64_MAX], successful_queries, sum_offset))"

text \<open>The second loop: every stored offset of smaller magnitude replaces \<open>min_offset\<close>.\<close>

fun min_loop :: "int list \<Rightarrow> int \<Rightarrow> int" where
  "min_loop [] min_offset = min_offset"
| "min_loop (x # rest) min_offset =
     min_loop rest (if x \<noteq> INT64_MAX \<and> \<bar>x\<bar> < \<bar>min_offset\<bar> then x else min_offset)"

text \<open>
  The value of \<open>min_offset\<close> after both loops, from the five query results: 0 when no
  query counted, otherwise the truncated average overridden by the second loop.
\<close>

definition select_offset :: "int list \<Rightarrow> int \<times> int" where
  "select_offset results =
     (let (offsets, successful_queries, sum_offset) = query_loop results ([], 0, 0);
          min_offset = (if successful_queries > 0
                        then min_loop offsets (sum_offset sdiv successful_queries)
                        else 0)
      in (successful_queries, min_offset))"

text \<open>
  The locked section that publishes a result. \<open>ntp_slew_period\<close> and \<open>selected_fps\<close> are
  the globals read there; \<open>selected_fps\<close> is a \<open>double\<close> holding one of the table values
  24, 25, 29.97 or 30, modelled by the rational it denotes, and the product with the
  slew period by the exact product. The result is the return code and the new state.
\<close>

definition publish_offset :: "int \<Rightarrow> int \<Rightarrow> rat \<Rightarrow> ntp_state \<Rightarrow> int \<times> ntp_state" where
  "publish_offset min_offset ntp_slew_period selected_fps s =
     (if \<bar>min_offset\<bar> < NTP_ERROR_THRESHOLD then
        (let s1 = s\<lparr>ntp_target_offset_us := min_offset\<rparr>;
             adjust_frames = to_int64 (of_int ntp_slew_period * selected_fps);
             diff = ntp_target_offset_us s1 - ntp_offset_us s1
         in if adjust_frames > 0 then
              (let s2 = s1\<lparr>ntp_adjustment_step_us := diff sdiv adjust_frames\<rparr>
               in if diff \<noteq> 0 \<and> ntp_adjustment_step_us s2 = 0
                  then (0, s2\<lparr>ntp_adjustment_step_us := (if diff > 0 then 1 else - 1)\<rparr>)
                  else (0, s2))
            else (0, s1))
      else (- 1, s))"

definition query_ntp_server :: "ntp_env \<Rightarrow> int \<Rightarrow> rat \<Rightarrow> ntp_state \<Rightarrow> int \<times> ntp_state" where
  "query_ntp_server env ntp_slew_period selected_fps s =
     (if socket_ok env then
        if setsockopt_ok env then
          if resolved env then
            (let (successful_queries, min_offset) =
                   select_offset (map (reply env) [0..<NTP_QUERY_COUNT])
             in if successful_queries = 0 then (- 1, s)
                else publish_offset min_offset ntp_slew_period selected_fps s)
          else (- 1, s)
        else (- 1, s)
      else (- 1, s))"

text \<open>
  The samples that pass the per-sample filter of the first loop, in query order.
\<close>

definition survivors :: "int list \<Rightarrow> int list" where
  "survivors results =
     filter (\<lambda>x. x \<noteq> INT64_MAX \<and> \<bar>x\<bar> < NTP_ERROR_THRESHOLD) results"

section \<open>Runs of the shared state\<close>

text \<open>
  The state is written by the audio thread (one slew step per frame) and by the sync
  thread (one \<open>query_ntp_server\<close> per cycle, also once at start-up), each under the lock.
  A run is the sequence of these critical sections in the order the lock grants them.
\<close>

datatype ntp_event = Frame | Sync ntp_env

fun run :: "int \<Rightarrow> rat \<Rightarrow> ntp_event list \<Rightarrow> ntp_state \<Rightarrow> ntp_state" where
  "run ntp_slew_period selected_fps [] s = s"
| "run ntp_slew_period selected_fps (Frame # evs) s =
     run ntp_slew_period selected_fps evs (slew_step s)"
| "run ntp_slew_period selected_fps (Sync env # evs) s =
     run ntp_slew_period selected_fps evs (snd (query_ntp_server env ntp_slew_period selected_fps s))"

definition distance :: "ntp_state \<Rightarrow> int" where
  "distance s = \<bar>ntp_offset_us s - ntp_target_offset_us s\<bar>"

section \<open>The wait of the sync thread\<close>

text \<open>
  \<open>ntp_sync_thread\<close> waits with \<open>for (i = 0; i < ntp_sync_interval && running; i++) sleep(1)\<close>.
  \<open>running_at i\<close> is the value the loop reads from the flag \<open>running\<close> at its check
  number \<open>i\<close>; the result lists the arguments of the \<open>sleep\<close> calls, in seconds, one
  between every two consecutive checks.
\<close>

function wait_interval :: "(int \<Rightarrow> bool) \<Rightarrow> int \<Rightarrow> int \<Rightarrow> int list" where
  "wait_interval running_at ntp_sync_interval i =
     (if i < ntp_sync_interval \<and> running_at i
      then 1 # wait_interval running_at ntp_sync_interval (i + 1)
      else [])"
  by pat_completeness auto
termination
  by (relation "measure (\<lambda>(running_at, ntp_sync_interval, i). nat (ntp_sync_interval - i))") auto

declare wait_interval.simps [simp del]

section \<open>Frame rates and the timecode clock\<close>

definition LTC_TV_525_60 :: int where
  "LTC_TV_525_60 = 0"

definition LTC_TV_625_50 :: int where
  "LTC_TV_625_50 = 1"

text \<open>
  \<open>framerate_spec_t\<close> and the table \<open>supported_rates\<close>. The \<open>double\<close> field \<open>fps\<close> is
  modelled by the rational its literal denotes; 24, 25 and 30 are exact as doubles, and
  29.97 is only ever compared with the same literal.
\<close>

record framerate_spec_t =
  fps :: rat
  std :: int
  drop_frame :: int
  name :: string

definition supported_rates :: "framerate_spec_t list" where
  "supported_rates =
     [\<lparr>fps = 24, std = LTC_TV_525_60, drop_frame = 0, name = ''24''\<rparr>,
      \<lparr>fps = 25, std = LTC_TV_625_50, drop_frame = 0, name = ''25''\<rparr>,
      \<lparr>fps = 2997 / 100, std = LTC_TV_525_60, drop_frame = 0, name = ''29.97''\<rparr>,
      \<lparr>fps = 30, std = LTC_TV_525_60, drop_frame = 0, name = ''30''\<rparr>,
      \<lparr>fps = 2997 / 100, std = LTC_TV_525_60, drop_frame = 1, name = ''29.97df''\<rparr>,
      \<lparr>fps = 30, std = LTC_TV_525_60, drop_frame = 1, name = ''30df''\<rparr>]"

record timespec =
  tv_sec :: int
  tv_nsec :: int

record tm =
  tm_year :: int
  tm_mon :: int
  tm_mday :: int
  tm_hour :: int
  tm_min :: int
  tm_sec :: int

text \<open>
  \<open>SMPTETimecode\<close> is declared by libltc; the model keeps the seven fields the clock
  assigns, each holding the \<open>int\<close> value assigned to it.
\<close>

record SMPTETimecode =
  years :: int
  months :: int
  days :: int
  hours :: int
  mins :: int
  secs :: int
  frame :: int

text \<open>
  What ALSA reports to \<open>get_timecode_with_alsa_latency\<close>: \<open>snd_pcm_status\<close> succeeded and
  gave a delay, or it failed and \<open>snd_pcm_delay\<close> gave one, or both failed.
\<close>

datatype pcm_report = Status_delay int | Fallback_delay int | No_delay

definition delay_frames_of :: "pcm_report \<Rightarrow> int" where
  "delay_frames_of r =
     (case r of
        Status_delay d \<Rightarrow> (if d < 0 then 0 else d)
      | Fallback_delay d \<Rightarrow> (if d < 0 then 0 else d)
      | No_delay \<Rightarrow> 0)"

text \<open>
  The conversion of \<open>fps\<close> to \<open>frame_numerator / frame_denominator\<close>, written out in
  both clock functions.
\<close>

definition frame_rational :: "rat \<Rightarrow> int \<times> int" where
  "frame_rational fps_v =
     (if fps_v = 2997 / 100 then (30000, 1001)
      else if fps_v = 23976 / 1000 then (24000, 1001)
      else (to_int64 (fps_v * 1000), 1000))"

text \<open>
  \<open>get_timecode_with_alsa_latency\<close>. Inputs beyond the C parameters: \<open>localtime\<close>, the
  clock reading \<open>ts\<close>, the globals \<open>use_ntp\<close> and the NTP state, the ALSA report, and
  \<open>processing_offset_us\<close>, the integer that the floating-point correction curve
  (exponential, sine and quadratic terms of the position within the second) produces.
  The result is the timecode written to \<open>tc\<close> and the NTP state after the slew step.
\<close>

definition get_timecode_with_alsa_latency ::
  "(int \<Rightarrow> tm) \<Rightarrow> timespec \<Rightarrow> int \<Rightarrow> ntp_state \<Rightarrow> pcm_report \<Rightarrow> int \<Rightarrow> rat \<Rightarrow> int
     \<Rightarrow> SMPTETimecode \<times> ntp_state" where
  "get_timecode_with_alsa_latency localtime ts use_ntp s pcm processing_offset_us fps_v df =
     (let time_us0 = tv_sec ts * MICROSECONDS_PER_SECOND
                     + tv_nsec ts sdiv NANOSECONDS_PER_MICROSECOND;
          time_us = (if use_ntp \<noteq> 0 then time_us0 + ntp_offset_us s else time_us0);
          s' = (if use_ntp \<noteq> 0 then slew_step s else s);
          delay_frames = delay_frames_of pcm;
          buffer_delay_us =
            (delay_frames * MICROSECONDS_PER_SECOND + SAMPLE_RATE sdiv 2) sdiv SAMPLE_RATE;
          adj_time_us = time_us + buffer_delay_us + processing_offset_us;
          adj_whole = adj_time_us sdiv MICROSECONDS_PER_SECOND;
          adj_frac_us = adj_time_us smod MICROSECONDS_PER_SECOND;
          t = localtime adj_whole;
          (frame_numerator, frame_denominator) = frame_rational fps_v;
          us_per_frame = (MICROSECONDS_PER_SECOND * frame_denominator) sdiv frame_numerator;
          frame0 = adj_frac_us sdiv us_per_frame;
          frame1 = (if frame0 \<ge> frame_numerator sdiv frame_denominator
                    then frame_numerator sdiv frame_denominator - 1 else frame0);
          frame2 = (if df \<noteq> 0 then
                      (if tm_min t smod 10 \<noteq> 0 \<and> frame1 < 2 then 2 else frame1)
                    else frame1)
      in (\<lparr>years = tm_year t + 1900, months = tm_mon t + 1, days = tm_mday t,
           hours = tm_hour t, mins = tm_min t, secs = tm_sec t, frame = frame2\<rparr>, s'))"

text \<open>\<open>get_display_timecode\<close>: no buffer delay, no correction, the offset passed in.\<close>

definition get_display_timecode ::
  "(int \<Rightarrow> tm) \<Rightarrow> timespec \<Rightarrow> rat \<Rightarrow> int \<Rightarrow> int \<Rightarrow> SMPTETimecode" where
  "get_display_timecode localtime ts fps_v df ntp_offset =
     (let time_us = tv_sec ts * MICROSECONDS_PER_SECOND
                    + tv_nsec ts sdiv NANOSECONDS_PER_MICROSECOND
                    + ntp_offset;
          adj_whole = time_us sdiv MICROSECONDS_PER_SECOND;
          adj_frac_us = time_us smod MICROSECONDS_PER_SECOND;
          t = localtime adj_whole;
          (frame_numerator, frame_denominator) = frame_rational fps_v;
          us_per_frame = (MICROSECONDS_PER_SECOND * frame_denominator) sdiv frame_numerator;
          frame0 = adj_frac_us sdiv us_per_frame;
          frame1 = (if frame0 \<ge> frame_numerator sdiv frame_denominator
                    then frame_numerator sdiv frame_denominator - 1 else frame0);
          frame2 = (if df \<noteq> 0 then
                      (if tm_min t smod 10 \<noteq> 0 \<and> frame1 < 2 then 2 else frame1)
                    else frame1)
      in \<lparr>years = tm_year t + 1900, months = tm_mon t + 1, days = tm_mday t,
          hours = tm_hour t, mins = tm_min t, secs = tm_sec t, frame = frame2\<rparr>)"

text \<open>
  The adjusted time each function splits into seconds and microseconds, and the frame
  before the drop-frame rule (derived from the fraction, then capped).
\<close>

definition output_adj_time_us :: "timespec \<Rightarrow> int \<Rightarrow> ntp_state \<Rightarrow> pcm_report \<Rightarrow> int \<Rightarrow> int" where
  "output_adj_time_us ts use_ntp s pcm processing_offset_us =
     tv_sec ts * MICROSECONDS_PER_SECOND + tv_nsec ts sdiv NANOSECONDS_PER_MICROSECOND
     + (if use_ntp \<noteq> 0 then ntp_offset_us s else 0)
     + (delay_frames_of pcm * MICROSECONDS_PER_SECOND + SAMPLE_RATE sdiv 2) sdiv SAMPLE_RATE
     + processing_offset_us"

definition display_adj_time_us :: "timespec \<Rightarrow> int \<Rightarrow> int" where
  "display_adj_time_us ts ntp_offset =
     tv_sec ts * MICROSECONDS_PER_SECOND + tv_nsec ts sdiv NANOSECONDS_PER_MICROSECOND
     + ntp_offset"

definition derived_frame :: "rat \<Rightarrow> int \<Rightarrow> int" where
  "derived_frame fps_v adj_time_us =
     (adj_time_us smod MICROSECONDS_PER_SECOND)
       sdiv ((MICROSECONDS_PER_SECOND * snd (frame_rational fps_v)) sdiv fst (frame_rational fps_v))"

definition capped_frame :: "rat \<Rightarrow> int \<Rightarrow> int" where
  "capped_frame fps_v adj_time_us =
     (if derived_frame fps_v adj_time_us \<ge> fst (frame_rational fps_v) sdiv snd (frame_rational fps_v)
      then fst (frame_rational fps_v) sdiv snd (frame_rational fps_v) - 1
      else derived_frame fps_v adj_time_us)"

definition dropped_frame :: "int \<Rightarrow> int \<Rightarrow> int \<Rightarrow> int" where
  "dropped_frame df minute f =
     (if df \<noteq> 0 then (if minute smod 10 \<noteq> 0 \<and> f < 2 then 2 else f) else f)"

section \<open>Auxiliary notions for the proofs\<close>

text \<open>The step points from the current offset towards the target (and is 0 on arrival).\<close>

definition aligned :: "ntp_state \<Rightarrow> bool" where
  "aligned s = (sgn (ntp_adjustment_step_us s) = sgn (ntp_target_offset_us s - ntp_offset_us s))"

text \<open>The array \<open>offsets\<close> after the first loop.\<close>

definition stored :: "int list \<Rightarrow> int list" where
  "stored results =
     map (\<lambda>x. if x \<noteq> INT64_MAX \<and> \<bar>x\<bar> < NTP_ERROR_THRESHOLD then x else INT64_MAX) results"

text \<open>
  An environment for concrete runs: socket and resolver work, the queries return the
  listed values in order, and every further query fails.
\<close>

definition env_of :: "int list \<Rightarrow> ntp_env" where
  "env_of results =
     \<lparr>socket_ok = True, setsockopt_ok = True, resolved = True,
      reply = (\<lambda>i. if i < length results then results ! i else INT64_MAX)\<rparr>"

text \<open>A flag \<open>running\<close> that is cleared at check number \<open>k\<close> and stays cleared.\<close>

definition stopped_at :: "int \<Rightarrow> int \<Rightarrow> bool" where
  "stopped_at k i = (i < k)"

text \<open>
  A \<open>localtime\<close> for concrete runs: the UTC time of day of a nonnegative \<open>time_t\<close>; the
  date fields, which the frame computation does not read, are left at the epoch day.
\<close>

definition utc_clock :: "int \<Rightarrow> tm" where
  "utc_clock t =
     \<lparr>tm_year = 70, tm_mon = 0, tm_mday = 1,
      tm_hour = (t div 3600) mod 24, tm_min = (t div 60) mod 60, tm_sec = t mod 60\<rparr>"


text \<open>Offset and target are both below the plausibility threshold in magnitude.\<close>

definition bounded :: "ntp_state \<Rightarrow> bool" where
  "bounded s = (\<bar>ntp_offset_us s\<bar> < NTP_ERROR_THRESHOLD \<and> \<bar>ntp_target_offset_us s\<bar> < NTP_ERROR_THRESHOLD)"

section \<open>Truncating division\<close>

lemma sdiv_pos_pos: "0 \<le> a \<Longrightarrow> 0 < b \<Longrightarrow> a sdiv b = a div (b::int)"
  by (simp add: signed_divide_int_def sgn_if)

lemma sdiv_neg_pos: "a < 0 \<Longrightarrow> 0 < b \<Longrightarrow> a sdiv b = - ((- a) div (b::int))"
  by (simp add: signed_divide_int_def sgn_if)


lemma sgn_sdiv_pos:
  assumes "0 < (b::int)"
  shows "a sdiv b = 0 \<or> sgn (a sdiv b) = sgn a"
proof (cases "0 \<le> a")
  case True
  then have "a sdiv b = a div b" using assms by (simp add: sdiv_pos_pos)
  moreover have "0 \<le> a div b" using True assms by (simp add: pos_imp_zdiv_nonneg_iff)
  ultimately show ?thesis using True by (auto simp: sgn_if)
next
  case False
  then have e: "a sdiv b = - ((- a) div b)" using assms by (simp add: sdiv_neg_pos)
  have "0 \<le> (- a) div b" using False assms by (simp add: pos_imp_zdiv_nonneg_iff)
  with e False show ?thesis by (auto simp: sgn_if)
qed

lemma abs_sdiv: "\<bar>a sdiv (b::int)\<bar> = \<bar>a\<bar> div \<bar>b\<bar>"
proof -
  have "0 \<le> \<bar>a\<bar> div \<bar>b\<bar>" by (simp add: pos_imp_zdiv_nonneg_iff div_int_pos_iff)
  then show ?thesis
    by (cases "a = 0"; cases "b = 0") (simp_all add: signed_divide_int_def abs_mult abs_sgn_eq)
qed

section \<open>The slew invariant\<close>

lemma supported_fps_cases:
  "fps_v \<in> fps ` set supported_rates \<Longrightarrow>
     fps_v = 24 \<or> fps_v = 25 \<or> fps_v = 2997 / 100 \<or> fps_v = 30"
  by (auto simp: supported_rates_def)

text \<open>
  Both option parsing and the configuration file replace a slew period below 1 by 30, so
  the number of slew frames is positive for every rate of the table.
\<close>

lemma adjust_frames_pos:
  assumes "1 \<le> slew" "fps_v \<in> fps ` set supported_rates"
  shows "0 < to_int64 (of_int slew * fps_v)"
proof -
  have f: "24 \<le> fps_v" using supported_fps_cases [OF assms(2)] by auto
  have "(1::rat) \<le> of_int slew" using assms(1) by simp
  then have "1 * 24 \<le> of_int slew * fps_v" using f by (intro mult_mono) auto
  then have g: "24 \<le> of_int slew * fps_v" by simp
  then have "(24::int) \<le> \<lfloor>of_int slew * fps_v\<rfloor>" by (simp add: le_floor_iff)
  with g show ?thesis by (simp add: to_int64_def)
qed

lemma publish_aligned:
  assumes "0 < to_int64 (of_int slew * fps_v)" "aligned s"
  shows "aligned (snd (publish_offset m slew fps_v s))"
  using assms sgn_sdiv_pos [OF assms(1), of "m - ntp_offset_us s"]
  by (auto simp: publish_offset_def aligned_def Let_def sgn_if split: if_splits)

lemma slew_aligned: "aligned s \<Longrightarrow> aligned (slew_step s)"
  by (auto simp: slew_step_def aligned_def Let_def sgn_if split: if_splits)

lemma query_cases:
  "query_ntp_server env slew fps_v s = (- 1, s) \<or>
   (\<exists>m. query_ntp_server env slew fps_v s = publish_offset m slew fps_v s)"
  by (auto simp: query_ntp_server_def Let_def split: prod.splits)

lemma query_aligned:
  assumes "0 < to_int64 (of_int slew * fps_v)" "aligned s"
  shows "aligned (snd (query_ntp_server env slew fps_v s))"
  using query_cases [of env slew fps_v s] publish_aligned [OF assms] assms(2) by auto

lemma run_aligned_gen:
  assumes "0 < to_int64 (of_int slew * fps_v)"
  shows "aligned s \<Longrightarrow> aligned (run slew fps_v evs s)"
proof (induction evs arbitrary: s)
  case Nil
  then show ?case by simp
next
  case (Cons e evs)
  then show ?case by (cases e) (simp_all add: slew_aligned query_aligned [OF assms])
qed

lemma run_aligned:
  assumes "1 \<le> slew" "fps_v \<in> fps ` set supported_rates"
  shows "aligned (run slew fps_v evs ntp_init)"
  by (rule run_aligned_gen [OF adjust_frames_pos [OF assms]]) (simp add: aligned_def ntp_init_def)

lemma slew_distance:
  assumes "aligned s"
  shows "if distance s \<noteq> 0 then distance (slew_step s) < distance s
         else distance (slew_step s) = 0"
  using assms
  by (auto simp: slew_step_def aligned_def distance_def Let_def sgn_if split: if_splits)

text \<open>
  The values stay within ten seconds of zero, far from the limits of \<open>int64_t\<close>: the
  sums and differences the code forms on them cannot wrap.
\<close>

lemma slew_bounded: "aligned s \<Longrightarrow> bounded s \<Longrightarrow> bounded (slew_step s)"
  by (auto simp: slew_step_def aligned_def bounded_def Let_def sgn_if split: if_splits)

lemma publish_bounded: "bounded s \<Longrightarrow> bounded (snd (publish_offset m slew fps_v s))"
  by (auto simp: publish_offset_def bounded_def Let_def)

lemma query_bounded: "bounded s \<Longrightarrow> bounded (snd (query_ntp_server env slew fps_v s))"
  using query_cases [of env slew fps_v s] publish_bounded [of s] by auto

lemma run_bounded_gen:
  assumes "0 < to_int64 (of_int slew * fps_v)"
  shows "aligned s \<Longrightarrow> bounded s \<Longrightarrow> bounded (run slew fps_v evs s)"
proof (induction evs arbitrary: s)
  case Nil
  then show ?case by simp
next
  case (Cons e evs)
  then show ?case
    by (cases e) (simp_all add: slew_aligned slew_bounded query_bounded query_aligned [OF assms])
qed

lemma run_bounded:
  assumes "1 \<le> slew" "fps_v \<in> fps ` set supported_rates"
  shows "bounded (run slew fps_v evs ntp_init)"
  by (rule run_bounded_gen [OF adjust_frames_pos [OF assms]])
    (simp_all add: aligned_def bounded_def ntp_init_def NTP_ERROR_THRESHOLD_def MICROSECONDS_PER_SECOND_def)

subsection \<open>Concrete sync cycles\<close>

lemma query_indices: "[0..<NTP_QUERY_COUNT] = [0, 1, 2, 3, 4]"
  by (simp add: NTP_QUERY_COUNT_def upt_rec)

lemmas ntp_eval =
  query_ntp_server_def env_of_def query_indices select_offset_def INT64_MAX_def
  NTP_ERROR_THRESHOLD_def MICROSECONDS_PER_SECOND_def publish_offset_def ntp_init_def
  to_int64_def signed_divide_int_def Let_def

lemma sync_250000:
  "query_ntp_server (env_of [250000]) 30 25 ntp_init =
     (0, \<lparr>ntp_offset_us = 0, ntp_target_offset_us = 250000, ntp_adjustment_step_us = 333\<rparr>)"
  by (simp add: ntp_eval)

lemma sync_100_after_250000:
  "query_ntp_server (env_of [100]) 30 25
     \<lparr>ntp_offset_us = 0, ntp_target_offset_us = 250000, ntp_adjustment_step_us = 333\<rparr> =
     (0, \<lparr>ntp_offset_us = 0, ntp_target_offset_us = 100, ntp_adjustment_step_us = 1\<rparr>)"
  by (simp add: ntp_eval)

section \<open>The two loops of a sync cycle\<close>

lemma query_loop_eq:
  "query_loop results (offsets, n, sm) =
     (offsets @ stored results, n + int (length (survivors results)), sm + sum_list (survivors results))"
  by (induction results arbitrary: offsets n sm) (simp_all add: stored_def survivors_def)

lemma select_offset_eq:
  "select_offset results =
     (int (length (survivors results)),
      if survivors results = [] then 0
      else min_loop (stored results) (sum_list (survivors results) sdiv int (length (survivors results))))"
  by (simp add: select_offset_def query_loop_eq)

lemma min_loop_le: "\<bar>min_loop xs m\<bar> \<le> \<bar>m\<bar>"
proof (induction xs arbitrary: m)
  case Nil
  then show ?case by simp
next
  case (Cons x xs)
  have "\<bar>min_loop (x # xs) m\<bar> \<le> \<bar>if x \<noteq> INT64_MAX \<and> \<bar>x\<bar> < \<bar>m\<bar> then x else m\<bar>"
    using Cons.IH by simp
  also have "\<dots> \<le> \<bar>m\<bar>" by simp
  finally show ?case .
qed

lemma survivors_bound: "x \<in> set (survivors results) \<Longrightarrow> \<bar>x\<bar> < NTP_ERROR_THRESHOLD"
  by (simp add: survivors_def)

lemma sum_list_abs_bound:
  "(\<And>x. x \<in> set xs \<Longrightarrow> \<bar>x\<bar> \<le> (b::int)) \<Longrightarrow> \<bar>sum_list xs\<bar> \<le> int (length xs) * b"
proof (induction xs)
  case Nil
  then show ?case by simp
next
  case (Cons x xs)
  have "\<bar>x\<bar> \<le> b" using Cons.prems by simp
  moreover have "\<bar>sum_list xs\<bar> \<le> int (length xs) * b" using Cons by simp
  ultimately show ?case by (simp add: algebra_simps)
qed

lemma average_bound:
  assumes "xs \<noteq> []" "\<And>x. x \<in> set xs \<Longrightarrow> \<bar>x\<bar> < (b::int)"
  shows "\<bar>sum_list xs sdiv int (length xs)\<bar> < b"
proof -
  let ?n = "int (length xs)"
  have n: "0 < ?n" using assms(1) by simp
  have "\<bar>sum_list xs\<bar> \<le> ?n * (b - 1)"
    using assms(2) by (intro sum_list_abs_bound) fastforce
  then have "\<bar>sum_list xs\<bar> div ?n \<le> (?n * (b - 1)) div ?n"
    using n by (intro zdiv_mono1) auto
  also have "\<dots> = b - 1" using n by simp
  finally show ?thesis using n by (simp add: abs_sdiv)
qed

lemma select_offset_bound:
  assumes "survivors results \<noteq> []"
  shows "\<bar>snd (select_offset results)\<bar> < NTP_ERROR_THRESHOLD"
proof -
  have "\<bar>snd (select_offset results)\<bar>
        \<le> \<bar>sum_list (survivors results) sdiv int (length (survivors results))\<bar>"
    using assms by (simp add: select_offset_eq min_loop_le)
  also have "\<dots> < NTP_ERROR_THRESHOLD"
    using assms survivors_bound by (intro average_bound) auto
  finally show ?thesis .
qed


lemma query_success:
  assumes "socket_ok env" "setsockopt_ok env" "resolved env"
    and "survivors (map (reply env) [0..<NTP_QUERY_COUNT]) \<noteq> []"
  shows "query_ntp_server env slew fps_v s =
           publish_offset (snd (select_offset (map (reply env) [0..<NTP_QUERY_COUNT]))) slew fps_v s"
  using assms by (simp add: query_ntp_server_def select_offset_eq Let_def)

lemma publish_ok:
  assumes "\<bar>m\<bar> < NTP_ERROR_THRESHOLD"
  shows "fst (publish_offset m slew fps_v s) = 0"
    and "ntp_target_offset_us (snd (publish_offset m slew fps_v s)) = m"
    and "ntp_offset_us (snd (publish_offset m slew fps_v s)) = ntp_offset_us s"
  using assms by (simp_all add: publish_offset_def Let_def)

lemma publish_step:
  assumes "\<bar>m\<bar> < NTP_ERROR_THRESHOLD" "0 < to_int64 (of_int slew * fps_v)"
  shows "ntp_adjustment_step_us (snd (publish_offset m slew fps_v s)) =
          (if m - ntp_offset_us s \<noteq> 0 \<and> (m - ntp_offset_us s) sdiv to_int64 (of_int slew * fps_v) = 0
           then (if m - ntp_offset_us s > 0 then 1 else - 1)
           else (m - ntp_offset_us s) sdiv to_int64 (of_int slew * fps_v))"
  using assms by (simp add: publish_offset_def Let_def)

lemma query_zero_cases:
  assumes "query_ntp_server env slew fps_v s = (0, s')"
  shows "\<exists>m. \<bar>m\<bar> < NTP_ERROR_THRESHOLD \<and> s' = snd (publish_offset m slew fps_v s)"
proof -
  from query_cases [of env slew fps_v s] assms
  obtain m where m: "publish_offset m slew fps_v s = (0, s')" by auto
  then have "\<bar>m\<bar> < NTP_ERROR_THRESHOLD" by (auto simp: publish_offset_def split: if_splits)
  with m show ?thesis by (intro exI [of _ m]) simp
qed


lemma min_loop_minimal:
  "x \<in> set xs \<Longrightarrow> x \<noteq> INT64_MAX \<Longrightarrow> \<bar>min_loop xs m\<bar> \<le> \<bar>x\<bar>"
proof (induction xs arbitrary: m)
  case Nil
  then show ?case by simp
next
  case (Cons y ys)
  show ?case
  proof (cases "x = y")
    case True
    have "\<bar>min_loop (y # ys) m\<bar> \<le> \<bar>if y \<noteq> INT64_MAX \<and> \<bar>y\<bar> < \<bar>m\<bar> then y else m\<bar>"
      by (simp add: min_loop_le)
    also have "\<dots> \<le> \<bar>x\<bar>" using True Cons.prems by simp
    finally show ?thesis .
  next
    case False
    then have "x \<in> set ys" using Cons.prems by simp
    then show ?thesis using Cons.IH Cons.prems by simp
  qed
qed

text \<open>
  What does hold of the selection: no surviving sample is strictly smaller in magnitude
  than the selected offset.
\<close>

lemma select_offset_minimal:
  assumes "x \<in> set (survivors results)"
  shows "\<bar>snd (select_offset results)\<bar> \<le> \<bar>x\<bar>"
proof -
  have "x \<in> set (stored results)" and "x \<noteq> INT64_MAX"
    using assms by (auto simp: survivors_def stored_def)
  then have "\<bar>min_loop (stored results) m\<bar> \<le> \<bar>x\<bar>" for m by (rule min_loop_minimal)
  moreover have "survivors results \<noteq> []" using assms by auto
  ultimately show ?thesis by (simp add: select_offset_eq)
qed

section \<open>Claims about the slew\<close>

text \<open>
  C3. In every state the program reaches (any interleaving of audio frames and sync
  cycles from the initial state, for a slew period of at least one second and a rate of
  the table), a slew step strictly decreases the distance between \<open>ntp_offset_us\<close> and
  \<open>ntp_target_offset_us\<close> when it is nonzero and leaves it at zero otherwise; and after
  a sync cycle a nonzero \<open>ntp_adjustment_step_us\<close> has the sign of
  \<open>ntp_target_offset_us - ntp_offset_us\<close>.
\<close>

theorem slew_step_converges:
  assumes "1 \<le> slew" and "fps_v \<in> fps ` set supported_rates"
    and "s = run slew fps_v evs ntp_init"
    and "s' = snd (query_ntp_server env slew fps_v s)"
  shows "(if distance s \<noteq> 0 then distance (slew_step s) < distance s
          else distance (slew_step s) = 0)
       \<and> (ntp_adjustment_step_us s' \<noteq> 0 \<longrightarrow>
            sgn (ntp_adjustment_step_us s') = sgn (ntp_target_offset_us s' - ntp_offset_us s'))"
proof -
  have a: "aligned s" unfolding assms(3) by (rule run_aligned [OF assms(1,2)])
  have "aligned s'" unfolding assms(4)
    by (rule query_aligned [OF adjust_frames_pos [OF assms(1,2)] a])
  then show ?thesis using slew_distance [OF a] by (simp add: aligned_def)
qed

theorem slew_step_converges_witness:
  "(1::int) \<le> 30 \<and> (25::rat) \<in> fps ` set supported_rates
   \<and> distance (run 30 25 [Sync (env_of [250000])] ntp_init) \<noteq> 0
   \<and> distance (slew_step (run 30 25 [Sync (env_of [250000])] ntp_init))
       < distance (run 30 25 [Sync (env_of [250000])] ntp_init)
   \<and> ntp_adjustment_step_us
        (snd (query_ntp_server (env_of [100]) 30 25
               (run 30 25 [Sync (env_of [250000])] ntp_init))) \<noteq> 0
   \<and> sgn (ntp_adjustment_step_us
        (snd (query_ntp_server (env_of [100]) 30 25
               (run 30 25 [Sync (env_of [250000])] ntp_init))))
       = sgn (ntp_target_offset_us
                (snd (query_ntp_server (env_of [100]) 30 25
                       (run 30 25 [Sync (env_of [250000])] ntp_init)))
              - ntp_offset_us
                (snd (query_ntp_server (env_of [100]) 30 25
                       (run 30 25 [Sync (env_of [250000])] ntp_init))))"
proof -
  have h1: "(1::int) \<le> 30" by simp
  have h2: "(25::rat) \<in> fps ` set supported_rates" by (simp add: supported_rates_def)
  have d: "distance (run 30 25 [Sync (env_of [250000])] ntp_init) \<noteq> 0"
    by (simp add: sync_250000 distance_def)
  have q: "ntp_adjustment_step_us
        (snd (query_ntp_server (env_of [100]) 30 25
               (run 30 25 [Sync (env_of [250000])] ntp_init))) \<noteq> 0"
    by (simp add: sync_250000 sync_100_after_250000)
  from slew_step_converges [OF h1 h2 refl refl, of "[Sync (env_of [250000])]" "env_of [100]"]
  show ?thesis using h1 h2 d q by simp
qed


subsection \<open>Convergence of one slew\<close>

lemma publish_250000:
  "snd (publish_offset 250000 30 25 ntp_init) =
     \<lparr>ntp_offset_us = 0, ntp_target_offset_us = 250000, ntp_adjustment_step_us = 333\<rparr>"
  by (simp add: ntp_eval)

lemma slew_closed_form:
  "(slew_step ^^ k) \<lparr>ntp_offset_us = 0, ntp_target_offset_us = 250000, ntp_adjustment_step_us = 333\<rparr>
     = (if k \<le> 750
        then \<lparr>ntp_offset_us = 333 * int k, ntp_target_offset_us = 250000, ntp_adjustment_step_us = 333\<rparr>
        else \<lparr>ntp_offset_us = 250000, ntp_target_offset_us = 250000, ntp_adjustment_step_us = 0\<rparr>)"
proof (induction k)
  case 0
  then show ?case by simp
next
  case (Suc k)
  let ?s0 = "\<lparr>ntp_offset_us = 0, ntp_target_offset_us = 250000, ntp_adjustment_step_us = 333\<rparr>"
  have step: "(slew_step ^^ Suc k) ?s0 = slew_step ((slew_step ^^ k) ?s0)" by simp
  consider "k < 750" | "k = 750" | "750 < k" by linarith
  then show ?case
  proof cases
    case 1
    then have "(slew_step ^^ Suc k) ?s0 = 
       slew_step \<lparr>ntp_offset_us = 333 * int k, ntp_target_offset_us = 250000, ntp_adjustment_step_us = 333\<rparr>"
      unfolding step Suc.IH by simp
    also have "\<dots> = \<lparr>ntp_offset_us = 333 * int (Suc k), ntp_target_offset_us = 250000, ntp_adjustment_step_us = 333\<rparr>"
      using 1 by (simp add: slew_step_def Let_def algebra_simps)
    finally show ?thesis using 1 by (simp del: funpow.simps)
  next
    case 2
    then have "(slew_step ^^ Suc k) ?s0 = 
       slew_step \<lparr>ntp_offset_us = 249750, ntp_target_offset_us = 250000, ntp_adjustment_step_us = 333\<rparr>"
      unfolding step Suc.IH by simp
    also have "\<dots> = \<lparr>ntp_offset_us = 250000, ntp_target_offset_us = 250000, ntp_adjustment_step_us = 0\<rparr>"
      by (simp add: slew_step_def Let_def)
    finally show ?thesis using 2 by (simp del: funpow.simps)
  next
    case 3
    then have "(slew_step ^^ Suc k) ?s0 = 
       slew_step \<lparr>ntp_offset_us = 250000, ntp_target_offset_us = 250000, ntp_adjustment_step_us = 0\<rparr>"
      unfolding step Suc.IH by simp
    also have "\<dots> = \<lparr>ntp_offset_us = 250000, ntp_target_offset_us = 250000, ntp_adjustment_step_us = 0\<rparr>"
      by (simp add: slew_step_def)
    finally show ?thesis using 3 by (simp del: funpow.simps)
  qed
qed

lemma slew_250000_offset:
  "ntp_offset_us ((slew_step ^^ k) (snd (publish_offset 250000 30 25 ntp_init)))
     = min (333 * int k) 250000"
  unfolding publish_250000 slew_closed_form by (simp add: min_def)

text \<open>
  C2, as stated, fails: from offset 0 and target 250000 with slew period 30 s at 25 fps
  the published step is \<open>250000 / 750 = 333\<close> (truncated), and no number of steps up
  to 750 brings \<open>ntp_offset_us\<close> to 250000.
\<close>

theorem slew_250000_not_within_750:
  "\<not> (\<exists>k\<le>750. ntp_offset_us ((slew_step ^^ k) (snd (publish_offset 250000 30 25 ntp_init))) = 250000)"
proof
  assume "\<exists>k\<le>750. ntp_offset_us ((slew_step ^^ k) (snd (publish_offset 250000 30 25 ntp_init))) = 250000"
  then obtain k :: nat where k: "k \<le> 750"
    and e: "ntp_offset_us ((slew_step ^^ k) (snd (publish_offset 250000 30 25 ntp_init))) = 250000"
    by (elim exE conjE)
  from e have "min (333 * int k) 250000 = 250000" by (simp only: slew_250000_offset)
  with k show False by (simp add: min_def split: if_splits)
qed

text \<open>
  C2, amended. After \<open>k\<close> slew steps the offset is \<open>min (333 * k) 250000\<close>: it is 249750
  after 750 steps, exactly 250000 after 751 steps and from then on, and never above the
  target.
\<close>

theorem slew_250000_takes_751:
  "ntp_offset_us ((slew_step ^^ k) (snd (publish_offset 250000 30 25 ntp_init)))
     = min (333 * int k) 250000
   \<and> ntp_offset_us ((slew_step ^^ 751) (snd (publish_offset 250000 30 25 ntp_init))) = 250000
   \<and> ntp_offset_us ((slew_step ^^ k) (snd (publish_offset 250000 30 25 ntp_init))) \<le> 250000"
  unfolding slew_250000_offset by simp

section \<open>Claims about a sync cycle\<close>

text \<open>
  C4. After a successful sync (\<open>query_ntp_server\<close> returns 0), if the difference between
  the new target and the current offset is nonzero and smaller in magnitude than
  \<open>ntp_slew_period * selected_fps\<close>, the published step is \<open>+1\<close> for a positive and
  \<open>-1\<close> for a negative difference, never 0.
\<close>

theorem small_difference_forces_unit_step:
  assumes "1 \<le> slew" and "fps_v \<in> fps ` set supported_rates"
    and "query_ntp_server env slew fps_v s = (0, s')"
    and "ntp_target_offset_us s' - ntp_offset_us s \<noteq> 0"
    and "of_int \<bar>ntp_target_offset_us s' - ntp_offset_us s\<bar> < of_int slew * fps_v"
  shows "ntp_adjustment_step_us s' = (if ntp_target_offset_us s' - ntp_offset_us s > 0 then 1 else - 1)
       \<and> ntp_adjustment_step_us s' \<noteq> 0 \<and> ntp_offset_us s' = ntp_offset_us s"
proof -
  let ?af = "to_int64 (of_int slew * fps_v)"
  have af: "0 < ?af" by (rule adjust_frames_pos [OF assms(1,2)])
  from query_zero_cases [OF assms(3)] obtain m
    where m: "\<bar>m\<bar> < NTP_ERROR_THRESHOLD" and s': "s' = snd (publish_offset m slew fps_v s)"
    by blast
  have t: "ntp_target_offset_us s' = m" and o: "ntp_offset_us s' = ntp_offset_us s"
    unfolding s' using publish_ok [OF m] by simp_all
  let ?d = "m - ntp_offset_us s"
  have d0: "?d \<noteq> 0" using assms(4) t by simp
  have "0 \<le> of_int slew * fps_v" using assms(5) by (meson abs_ge_zero of_int_nonneg order_trans less_imp_le)
  then have afl: "?af = \<lfloor>of_int slew * fps_v\<rfloor>" by (simp add: to_int64_def)
  have "(of_int \<bar>?d\<bar> :: rat) < of_int slew * fps_v" using assms(5) t by simp
  then have le: "\<bar>?d\<bar> \<le> ?af" unfolding afl by (simp add: le_floor_iff)
  have q: "\<bar>?d sdiv ?af\<bar> = \<bar>?d\<bar> div ?af" using af by (simp add: abs_sdiv)
  have q1: "\<bar>?d\<bar> div ?af \<le> 1"
  proof -
    have "\<bar>?d\<bar> div ?af \<le> ?af div ?af" using le af by (intro zdiv_mono1) auto
    then show ?thesis using af by simp
  qed
  have sg: "?d sdiv ?af = 0 \<or> sgn (?d sdiv ?af) = sgn ?d" by (rule sgn_sdiv_pos [OF af])
  have "ntp_adjustment_step_us s' = (if ?d > 0 then 1 else - 1)"
    unfolding s' publish_step [OF m af] using d0 q q1 sg
    by (auto simp: sgn_if split: if_splits)
  then show ?thesis using t o by auto
qed


theorem small_difference_forces_unit_step_witness:
  "(1::int) \<le> 30 \<and> (25::rat) \<in> fps ` set supported_rates
   \<and> query_ntp_server (env_of [- 100]) 30 25 ntp_init
       = (0, \<lparr>ntp_offset_us = 0, ntp_target_offset_us = - 100, ntp_adjustment_step_us = - 1\<rparr>)
   \<and> (- 100) sdiv (750::int) = 0
   \<and> ntp_adjustment_step_us
        \<lparr>ntp_offset_us = 0, ntp_target_offset_us = - 100, ntp_adjustment_step_us = - 1\<rparr> = - 1"
proof -
  let ?s' = "\<lparr>ntp_offset_us = 0, ntp_target_offset_us = - 100, ntp_adjustment_step_us = - 1\<rparr>"
  have h1: "(1::int) \<le> 30" by simp
  have h2: "(25::rat) \<in> fps ` set supported_rates" by (simp add: supported_rates_def)
  have h3: "query_ntp_server (env_of [- 100]) 30 25 ntp_init = (0, ?s')" by code_simp
  have h4: "ntp_target_offset_us ?s' - ntp_offset_us ntp_init \<noteq> 0" by (simp add: ntp_init_def)
  have h5: "of_int \<bar>ntp_target_offset_us ?s' - ntp_offset_us ntp_init\<bar> < of_int 30 * (25::rat)"
    by (simp add: ntp_init_def)
  have h6: "(- 100) sdiv (750::int) = 0" by (simp add: signed_divide_int_def)
  from small_difference_forces_unit_step [OF h1 h2 h3 h4 h5] h1 h2 h3 h6
  show ?thesis by (simp add: ntp_init_def)
qed

text \<open>
  C5. When no query of the cycle yields a sample that passes the plausibility filter,
  \<open>query_ntp_server\<close> returns \<open>-1\<close> and the three shared variables keep their values.
\<close>

theorem no_survivor_leaves_state:
  assumes "survivors (map (reply env) [0..<NTP_QUERY_COUNT]) = []"
  shows "query_ntp_server env slew fps_v s = (- 1, s)"
  using assms by (simp add: query_ntp_server_def select_offset_eq Let_def)


theorem no_survivor_leaves_state_witness:
  "survivors (map (reply (env_of [INT64_MAX, 20000000, - 10000000])) [0..<NTP_QUERY_COUNT]) = []
   \<and> query_ntp_server (env_of [INT64_MAX, 20000000, - 10000000]) 30 25
        \<lparr>ntp_offset_us = 40, ntp_target_offset_us = 900, ntp_adjustment_step_us = 1\<rparr>
       = (- 1, \<lparr>ntp_offset_us = 40, ntp_target_offset_us = 900, ntp_adjustment_step_us = 1\<rparr>)"
proof -
  have h: "survivors (map (reply (env_of [INT64_MAX, 20000000, - 10000000])) [0..<NTP_QUERY_COUNT]) = []"
    by code_simp
  from no_survivor_leaves_state [OF h] h show ?thesis by simp
qed

text \<open>
  C10. When the socket is set up and at least one sample passes the per-sample filter,
  the offset selected by the two loops is again below the threshold in magnitude, so the
  second check never rejects it: the call returns 0 and the target is the selected offset.
\<close>

theorem survivor_always_published:
  assumes "socket_ok env" and "setsockopt_ok env" and "resolved env"
    and "survivors (map (reply env) [0..<NTP_QUERY_COUNT]) \<noteq> []"
  shows "\<bar>snd (select_offset (map (reply env) [0..<NTP_QUERY_COUNT]))\<bar> < NTP_ERROR_THRESHOLD
       \<and> fst (query_ntp_server env slew fps_v s) = 0
       \<and> ntp_target_offset_us (snd (query_ntp_server env slew fps_v s))
           = snd (select_offset (map (reply env) [0..<NTP_QUERY_COUNT]))"
proof -
  have b: "\<bar>snd (select_offset (map (reply env) [0..<NTP_QUERY_COUNT]))\<bar> < NTP_ERROR_THRESHOLD"
    by (rule select_offset_bound [OF assms(4)])
  show ?thesis
    unfolding query_success [OF assms] using b publish_ok [OF b] by simp
qed

theorem survivor_always_published_witness:
  "socket_ok (env_of [9999999, INT64_MAX, - 20000000]) \<and> setsockopt_ok (env_of [9999999, INT64_MAX, - 20000000])
   \<and> resolved (env_of [9999999, INT64_MAX, - 20000000])
   \<and> survivors (map (reply (env_of [9999999, INT64_MAX, - 20000000])) [0..<NTP_QUERY_COUNT]) = [9999999]
   \<and> fst (query_ntp_server (env_of [9999999, INT64_MAX, - 20000000]) 30 25 ntp_init) = 0
   \<and> ntp_target_offset_us (snd (query_ntp_server (env_of [9999999, INT64_MAX, - 20000000]) 30 25 ntp_init))
       = snd (select_offset (map (reply (env_of [9999999, INT64_MAX, - 20000000])) [0..<NTP_QUERY_COUNT]))"
proof -
  let ?e = "env_of [9999999, INT64_MAX, - 20000000]"
  have h1: "socket_ok ?e" and h2: "setsockopt_ok ?e" and h3: "resolved ?e"
    by (simp_all add: env_of_def)
  have e: "survivors (map (reply ?e) [0..<NTP_QUERY_COUNT]) = [9999999]" by code_simp
  then have h4: "survivors (map (reply ?e) [0..<NTP_QUERY_COUNT]) \<noteq> []" by simp
  from survivor_always_published [OF h1 h2 h3 h4, of 30 25 ntp_init] h1 h2 h3 e
  show ?thesis by simp
qed

text \<open>
  The example of the specification: with samples 5000, -300, 9999999 and 450 (the third
  is below the threshold and counts) the selected offset is -300.
\<close>

lemma selection_example:
  "select_offset [5000, - 300, 9999999, 450, INT64_MAX] = (4, - 300)"
  by code_simp

text \<open>
  C1 does not hold of the code. \<open>min_offset\<close> starts as the truncated average of the
  survivors, and a sample replaces it only when strictly smaller in magnitude; with
  samples of both signs the average can be smaller than every sample. Here five samples
  survive, their average 300 is published as the target, and 300 is none of them.
\<close>

theorem average_published_not_a_sample:
  "survivors (map (reply (env_of [1000, - 400, 800, - 600, 700])) [0..<NTP_QUERY_COUNT])
     = [1000, - 400, 800, - 600, 700]
   \<and> query_ntp_server (env_of [1000, - 400, 800, - 600, 700]) 30 25 ntp_init
     = (0, \<lparr>ntp_offset_us = 0, ntp_target_offset_us = 300, ntp_adjustment_step_us = 1\<rparr>)
   \<and> ntp_target_offset_us
         (snd (query_ntp_server (env_of [1000, - 400, 800, - 600, 700]) 30 25 ntp_init))
       \<notin> set (survivors (map (reply (env_of [1000, - 400, 800, - 600, 700]))
                              [0..<NTP_QUERY_COUNT]))"
  by code_simp

section \<open>Claim about the wait of the sync thread\<close>

lemma wait_all_one: "set (wait_interval running_at n i) \<subseteq> {1}"
proof (induction running_at n i rule: wait_interval.induct)
  case (1 running_at n i)
  then show ?case by (subst wait_interval.simps) auto
qed

lemma wait_length: "int (length (wait_interval running_at n i)) \<le> max 0 (n - i)"
proof (induction running_at n i rule: wait_interval.induct)
  case (1 running_at n i)
  then show ?case by (subst wait_interval.simps) auto
qed



lemma wait_stops:
  "i \<le> k \<Longrightarrow> \<not> running_at k \<Longrightarrow> int (length (wait_interval running_at n i)) \<le> k - i"
proof (induction running_at n i rule: wait_interval.induct)
  case (1 running_at n i)
  show ?case
  proof (cases "i < n \<and> running_at i")
    case True
    then have "i \<noteq> k" using "1.prems" by auto
    then have "i + 1 \<le> k" using "1.prems" by simp
    from "1.IH" [OF True this "1.prems"(2)]
    have "int (length (wait_interval running_at n (i + 1))) \<le> k - (i + 1)" .
    then show ?thesis using True by (subst wait_interval.simps) simp
  next
    case False
    then show ?thesis using "1.prems" by (subst wait_interval.simps) auto
  qed
qed

text \<open>
  C8, as stated, fails: the wait is made of calls \<open>sleep(1)\<close>, so it is not true that
  every sleep between two consecutive checks of \<open>running\<close> is shorter than one second.
\<close>

theorem wait_sleeps_full_seconds:
  "\<not> (\<forall>d \<in> set (wait_interval (stopped_at 3) 60 0). d < 1)"
proof -
  have "wait_interval (stopped_at 3) 60 0 = [1, 1, 1]" by code_simp
  then show ?thesis by simp
qed

text \<open>
  C8, amended. Every sleep between consecutive checks of \<open>running\<close> is \<open>sleep(1)\<close>, there
  are at most \<open>ntp_sync_interval\<close> of them, and the wait ends at the first check that
  finds the flag cleared: a shutdown is noticed at the next one-second check.
\<close>

theorem wait_polls_once_per_second:
  assumes "i \<le> k" and "\<not> running_at k"
  shows "set (wait_interval running_at n i) \<subseteq> {1}
       \<and> int (length (wait_interval running_at n i)) \<le> min (max 0 (n - i)) (k - i)"
  using wait_all_one [of running_at n i] wait_length [of running_at n i]
    wait_stops [of i k running_at n] assms
  by simp

theorem wait_polls_once_per_second_witness:
  "(0::int) \<le> 3 \<and> \<not> stopped_at 3 3
   \<and> wait_interval (stopped_at 3) 60 0 = [1, 1, 1]
   \<and> set (wait_interval (stopped_at 3) 60 0) \<subseteq> {1}
   \<and> int (length (wait_interval (stopped_at 3) 60 0)) \<le> min (max 0 (60 - 0)) (3 - 0)"
proof -
  have h1: "(0::int) \<le> 3" by simp
  have h2: "\<not> stopped_at 3 3" by (simp add: stopped_at_def)
  have e: "wait_interval (stopped_at 3) 60 0 = [1, 1, 1]" by code_simp
  from wait_polls_once_per_second [of 0 3 "stopped_at 3" 60] h1 h2 e show ?thesis by simp
qed

section \<open>The frame field of the timecode\<close>

text \<open>
  Both clock functions compute the frame in the same three steps from their adjusted
  time: derive, cap, apply the drop-frame rule.
\<close>

lemma output_frame_eq:
  "frame (fst (get_timecode_with_alsa_latency lt ts use_ntp s pcm po fps_v df)) =
     dropped_frame df
       (tm_min (lt (output_adj_time_us ts use_ntp s pcm po sdiv MICROSECONDS_PER_SECOND)))
       (capped_frame fps_v (output_adj_time_us ts use_ntp s pcm po))"
  by (simp add: get_timecode_with_alsa_latency_def output_adj_time_us_def dropped_frame_def
      capped_frame_def derived_frame_def Let_def split_def)

lemma output_mins_eq:
  "mins (fst (get_timecode_with_alsa_latency lt ts use_ntp s pcm po fps_v df)) =
     tm_min (lt (output_adj_time_us ts use_ntp s pcm po sdiv MICROSECONDS_PER_SECOND))"
  by (simp add: get_timecode_with_alsa_latency_def output_adj_time_us_def Let_def split_def)

lemma display_frame_eq:
  "frame (get_display_timecode lt ts fps_v df ntp_offset) =
     dropped_frame df
       (tm_min (lt (display_adj_time_us ts ntp_offset sdiv MICROSECONDS_PER_SECOND)))
       (capped_frame fps_v (display_adj_time_us ts ntp_offset))"
  by (simp add: get_display_timecode_def display_adj_time_us_def dropped_frame_def
      capped_frame_def derived_frame_def Let_def split_def)

lemma display_mins_eq:
  "mins (get_display_timecode lt ts fps_v df ntp_offset) =
     tm_min (lt (display_adj_time_us ts ntp_offset sdiv MICROSECONDS_PER_SECOND))"
  by (simp add: get_display_timecode_def display_adj_time_us_def Let_def split_def)

lemma smod_zero_iff_dvd: "(a smod 10 \<noteq> 0) = (\<not> 10 dvd (a::int))"
  by (auto simp: signed_modulo_int_def sgn_if dvd_eq_mod_eq_0 zmod_zminus1_eq_if)

lemma frame_rational_2997: "frame_rational (2997 / 100) = (30000, 1001)"
  by (simp add: frame_rational_def)






lemma capped_ntsc: "capped_frame (2997 / 100) adj = min 28 (derived_frame (2997 / 100) adj)"
  unfolding capped_frame_def frame_rational_2997 by (simp add: signed_divide_int_def min_def)

lemma dropped_le: "f \<le> b \<Longrightarrow> 2 \<le> b \<Longrightarrow> dropped_frame df m f \<le> (b::int)"
  by (simp add: dropped_frame_def)





lemma ntsc_frame_29_is_capped:
  "derived_frame (2997 / 100) 1730000000990000 = 29
   \<and> capped_frame (2997 / 100) 1730000000990000 = 28"
  by code_simp

text \<open>
  C6. For a rate of the table with \<open>drop_frame\<close> set, the frame returned by the output
  and by the display computation is the capped frame raised to 2 whenever the computed
  minute is not divisible by 10, hence never 0 or 1 there; for a minute divisible by 10
  the capped frame is returned unchanged.
\<close>

theorem drop_frame_skips_first_two:
  assumes "r \<in> set supported_rates" and "drop_frame r \<noteq> 0"
    and "tc = fst (get_timecode_with_alsa_latency lt ts use_ntp s pcm po (fps r) (drop_frame r))"
    and "dc = get_display_timecode lt ts' (fps r) (drop_frame r) ntp_offset"
  shows "(if 10 dvd mins tc
          then frame tc = capped_frame (fps r) (output_adj_time_us ts use_ntp s pcm po)
          else frame tc = max 2 (capped_frame (fps r) (output_adj_time_us ts use_ntp s pcm po))
               \<and> frame tc \<noteq> 0 \<and> frame tc \<noteq> 1)
       \<and> (if 10 dvd mins dc
          then frame dc = capped_frame (fps r) (display_adj_time_us ts' ntp_offset)
          else frame dc = max 2 (capped_frame (fps r) (display_adj_time_us ts' ntp_offset))
               \<and> frame dc \<noteq> 0 \<and> frame dc \<noteq> 1)"
  unfolding assms(3,4) output_frame_eq output_mins_eq display_frame_eq display_mins_eq
  using assms(2) by (simp add: dropped_frame_def smod_zero_iff_dvd max_def)

theorem drop_frame_skips_first_two_witness:
  "supported_rates ! 5 \<in> set supported_rates \<and> drop_frame (supported_rates ! 5) \<noteq> 0
   \<and> mins (fst (get_timecode_with_alsa_latency utc_clock \<lparr>tv_sec = 1730000040, tv_nsec = 0\<rparr>
               0 ntp_init No_delay 0 (fps (supported_rates ! 5)) (drop_frame (supported_rates ! 5)))) = 34
   \<and> capped_frame (fps (supported_rates ! 5))
        (output_adj_time_us \<lparr>tv_sec = 1730000040, tv_nsec = 0\<rparr> 0 ntp_init No_delay 0) = 0
   \<and> frame (fst (get_timecode_with_alsa_latency utc_clock \<lparr>tv_sec = 1730000040, tv_nsec = 0\<rparr>
               0 ntp_init No_delay 0 (fps (supported_rates ! 5)) (drop_frame (supported_rates ! 5)))) = 2
   \<and> mins (get_display_timecode utc_clock \<lparr>tv_sec = 1730000400, tv_nsec = 40000000\<rparr>
             (fps (supported_rates ! 5)) (drop_frame (supported_rates ! 5)) 0) = 40
   \<and> frame (get_display_timecode utc_clock \<lparr>tv_sec = 1730000400, tv_nsec = 40000000\<rparr>
             (fps (supported_rates ! 5)) (drop_frame (supported_rates ! 5)) 0) = 1"
proof -
  let ?r = "supported_rates ! 5"
  have h1: "?r \<in> set supported_rates" by (simp add: supported_rates_def)
  have h2: "drop_frame ?r \<noteq> 0" by (simp add: supported_rates_def)
  have m1: "mins (fst (get_timecode_with_alsa_latency utc_clock \<lparr>tv_sec = 1730000040, tv_nsec = 0\<rparr>
               0 ntp_init No_delay 0 (fps ?r) (drop_frame ?r))) = 34" by code_simp
  have c1: "capped_frame (fps ?r)
        (output_adj_time_us \<lparr>tv_sec = 1730000040, tv_nsec = 0\<rparr> 0 ntp_init No_delay 0) = 0"
    by code_simp
  have m2: "mins (get_display_timecode utc_clock \<lparr>tv_sec = 1730000400, tv_nsec = 40000000\<rparr>
             (fps ?r) (drop_frame ?r) 0) = 40"
    by code_simp
  have c2: "capped_frame (fps ?r)
        (display_adj_time_us \<lparr>tv_sec = 1730000400, tv_nsec = 40000000\<rparr> 0) = 1"
    by code_simp
  from drop_frame_skips_first_two [where r = ?r and lt = utc_clock
      and ts = "\<lparr>tv_sec = 1730000040, tv_nsec = 0\<rparr>" and use_ntp = 0 and s = ntp_init
      and pcm = No_delay and po = 0
      and ts' = "\<lparr>tv_sec = 1730000400, tv_nsec = 40000000\<rparr>" and ntp_offset = 0,
      OF h1 h2 refl refl]
  show ?thesis using h1 h2 m1 c1 m2 c2 by simp
qed




text \<open>
  C9. At 29.97 fps, drop-frame or not, the cap is \<open>30000 / 1001 = 29\<close> (truncated), so a
  derived frame of 29 or more becomes 28, and neither computation ever returns 29.
\<close>

theorem ntsc_frame_never_29:
  "frame (fst (get_timecode_with_alsa_latency lt ts use_ntp s pcm po (2997 / 100) df)) \<le> 28
   \<and> frame (fst (get_timecode_with_alsa_latency lt ts use_ntp s pcm po (2997 / 100) df)) \<noteq> 29
   \<and> frame (get_display_timecode lt ts' (2997 / 100) df ntp_offset) \<le> 28
   \<and> frame (get_display_timecode lt ts' (2997 / 100) df ntp_offset) \<noteq> 29
   \<and> capped_frame (2997 / 100) adj = min 28 (derived_frame (2997 / 100) adj)"
proof -
  have a: "capped_frame (2997 / 100) x \<le> 28" for x by (simp add: capped_ntsc)
  have b: "dropped_frame df m (capped_frame (2997 / 100) x) \<le> 28" for m x
    by (rule dropped_le [OF a]) simp
  have c: "dropped_frame df m (capped_frame (2997 / 100) x) \<noteq> 29" for m x
    using b [of m x] by simp
  show ?thesis unfolding output_frame_eq display_frame_eq
    using b c by (simp add: capped_ntsc)
qed

end
